theory Spec2Isabelle
  imports Main "HOL-Library.Word" "HOL-Library.Sublist"
begin

section \<open>JavaScript strings\<close>

text \<open>
  A JavaScript string is a sequence of UTF-16 code units. The built-ins the program
  calls (\<^verbatim>\<open>String.prototype.match\<close>, \<^verbatim>\<open>String.prototype.trim\<close>, \<^verbatim>\<open>\d\<close>) all work on
  code units, so a string is a list of 16-bit words. \<open>str\<close> writes an ASCII literal.
\<close>

type_synonym code_unit = "16 word"
type_synonym js_string = "code_unit list"

definition str :: "string \<Rightarrow> js_string" where
  "str s = map of_char s"

section \<open>utils/processImage.ts\<close>

subsection \<open>The regular expression \<^verbatim>\<open>/\d+(?:\.\d+)?/g\<close>\<close>

text \<open>
  The fragment of ECMAScript regular expressions the program uses: a character class
  (\<^verbatim>\<open>\d\<close> is \<^verbatim>\<open>[0-9]\<close> without the unicode flag, \<^verbatim>\<open>\.\<close> is the literal full stop),
  the greedy quantifier \<^verbatim>\<open>+\<close> on a class, sequence, and the greedy optional group
  \<^verbatim>\<open>(?:...)?\<close>.
\<close>

datatype char_class = Digit | Literal code_unit

fun class_ok :: "char_class \<Rightarrow> code_unit \<Rightarrow> bool" where
  "class_ok Digit c = (0x30 \<le> c \<and> c \<le> 0x39)"
| "class_ok (Literal d) c = (c = d)"

datatype regex = One char_class | Plus char_class | Seq regex regex | Opt regex

text \<open>
  The backtracking matcher, as the list of the lengths it can consume at the start of
  \<open>s\<close>, in the order in which backtracking tries them. A greedy \<^verbatim>\<open>+\<close> tries one more
  repetition before it stops; a greedy \<^verbatim>\<open>?\<close> tries its body (an empty repetition is
  rejected) before it skips it.
\<close>

fun plus_ends :: "char_class \<Rightarrow> js_string \<Rightarrow> nat list" where
  "plus_ends a [] = []"
| "plus_ends a (c # cs) = (if class_ok a c then map Suc (plus_ends a cs) @ [1] else [])"

fun ends :: "regex \<Rightarrow> js_string \<Rightarrow> nat list" where
  "ends (One a) s = (case s of [] \<Rightarrow> [] | c # _ \<Rightarrow> if class_ok a c then [1] else [])"
| "ends (Plus a) s = plus_ends a s"
| "ends (Seq r1 r2) s = concat (map (\<lambda>n. map ((+) n) (ends r2 (drop n s))) (ends r1 s))"
| "ends (Opt r) s = filter (\<lambda>n. 0 < n) (ends r s) @ [0]"

text \<open>The match at one position is the first alternative of the matcher, if any.\<close>

definition match_at :: "regex \<Rightarrow> js_string \<Rightarrow> nat option" where
  "match_at r s = (case ends r s of [] \<Rightarrow> None | n # _ \<Rightarrow> Some n)"

text \<open>
  \<^verbatim>\<open>String.prototype.match\<close> with a global regular expression: from \<^verbatim>\<open>lastIndex = 0\<close>,
  find the next position where the expression matches, collect the matched text and go
  on from its end (one code unit further after an empty match), until no position
  matches. The argument is the text from \<^verbatim>\<open>lastIndex\<close> on.
\<close>

function match_global :: "regex \<Rightarrow> js_string \<Rightarrow> js_string list" where
  "match_global r [] = (case match_at r [] of None \<Rightarrow> [] | Some n \<Rightarrow> [[]])"
| "match_global r (c # cs) =
     (case match_at r (c # cs) of
        None \<Rightarrow> match_global r cs
      | Some n \<Rightarrow>
          if n = 0 then [] # match_global r cs
          else take n (c # cs) # match_global r (drop n (c # cs)))"
  by pat_completeness auto
termination
  by (relation "measure (\<lambda>(r, s). length s)") auto

text \<open>The result is \<^verbatim>\<open>null\<close> when there is no match at all.\<close>

definition String_match :: "js_string \<Rightarrow> regex \<Rightarrow> js_string list option" where
  "String_match s r = (case match_global r s of [] \<Rightarrow> None | m # ms \<Rightarrow> Some (m # ms))"

definition number_regex :: regex where
  "number_regex = Seq (Plus Digit) (Opt (Seq (One (Literal 0x2E)) (Plus Digit)))"

definition extractNumbers :: "js_string \<Rightarrow> js_string list" where
  "extractNumbers text =
     (let matches = String_match text number_regex
      in case matches of None \<Rightarrow> [] | Some ms \<Rightarrow> ms)"

subsection \<open>The specification of the number extractor\<close>

text \<open>
  The specification's words: a token is a maximal run matching "one or more digits,
  optionally followed by a decimal point and one or more digits"; the text is scanned
  left to right and the tokens do not overlap.
\<close>

definition is_decimal_digit :: "code_unit \<Rightarrow> bool" where
  "is_decimal_digit c = (c \<in> set (str ''0123456789''))"

definition decimal_point :: code_unit where
  "decimal_point = of_char CHR ''.''"

definition is_numeric_token :: "js_string \<Rightarrow> bool" where
  "is_numeric_token w =
     (takeWhile is_decimal_digit w \<noteq> [] \<and>
      (case dropWhile is_decimal_digit w of
         [] \<Rightarrow> True
       | d # e \<Rightarrow> d = decimal_point \<and> e \<noteq> [] \<and> list_all is_decimal_digit e))"

text \<open>The longest prefix of \<open>s\<close>, of at most \<open>n\<close> code units, that is a token.\<close>

fun longest_token_upto :: "nat \<Rightarrow> js_string \<Rightarrow> js_string option" where
  "longest_token_upto 0 s = None"
| "longest_token_upto (Suc n) s =
     (if is_numeric_token (take (Suc n) s) then Some (take (Suc n) s)
      else longest_token_upto n s)"

definition longest_token :: "js_string \<Rightarrow> js_string option" where
  "longest_token s = longest_token_upto (length s) s"

function spec_tokens :: "js_string \<Rightarrow> js_string list" where
  "spec_tokens [] = []"
| "spec_tokens (c # cs) =
     (case longest_token (c # cs) of
        None \<Rightarrow> spec_tokens cs
      | Some t \<Rightarrow> t # spec_tokens (drop (length t) (c # cs)))"
  by pat_completeness auto
termination
proof (relation "measure length")
  fix c :: code_unit and cs t
  assume found: "longest_token (c # cs) = Some t"
  have "longest_token_upto n s = Some u \<Longrightarrow> n \<le> length s \<Longrightarrow> 0 < length u" for n s u
    by (induction n) (auto split: if_splits)
  with found have "0 < length t"
    unfolding longest_token_def by blast
  then show "(drop (length t) (c # cs), c # cs) \<in> measure length"
    by simp
qed simp_all

subsection \<open>Crop, recognise, extract\<close>

text \<open>
  A thrown value is an \<^verbatim>\<open>Error\<close> instance with its message, or anything else
  (\<^verbatim>\<open>err: unknown\<close>). The observable effects of the program, in order: console
  output, alerts, and the calls of the callbacks the component receives as props.
\<close>

datatype js_thrown = JsError (message: js_string) | NonError

datatype log_arg = Thrown js_thrown | Text js_string

datatype effect =
    ConsoleError js_string log_arg
  | Alert js_string js_string
  | OnExtractionComplete "js_string \<times> js_string"
  | OnProcessReset

record cut_area =
  area_x :: nat
  area_y :: nat
  area_width :: nat
  area_height :: nat

definition CUT_AREA :: cut_area where
  "CUT_AREA = \<lparr>area_x = 900, area_y = 150, area_width = 158, area_height = 850\<rparr>"

record crop =
  originX :: nat
  originY :: nat
  width :: nat
  height :: nat

text \<open>
  The two external capabilities: \<^verbatim>\<open>ImageManipulator.manipulateAsync\<close> with one crop
  action (the result is the \<^verbatim>\<open>uri\<close> of the image it returns) and
  \<^verbatim>\<open>TextRecognition.recognize\<close> (the result is the \<^verbatim>\<open>text\<close> it returns). Either may
  throw. An awaited call is its outcome: the stages run one after the other.
\<close>

record capabilities =
  manipulateAsync :: "js_string \<Rightarrow> crop \<Rightarrow> js_thrown + js_string"
  recognize :: "js_string \<Rightarrow> js_thrown + js_string"

definition crop_action :: crop where
  "crop_action = \<lparr>originX = area_x CUT_AREA, originY = area_y CUT_AREA,
                  width = area_width CUT_AREA, height = area_height CUT_AREA\<rparr>"

definition cropImage :: "capabilities \<Rightarrow> js_string \<Rightarrow> effect list \<times> (js_thrown + js_string)" where
  "cropImage caps uri =
     (case manipulateAsync caps uri crop_action of
        Inr result_uri \<Rightarrow> ([], Inr result_uri)
      | Inl err \<Rightarrow>
          ([ConsoleError (str ''Crop Error:'') (Thrown err)],
           Inl (JsError (str ''Image cropping failed.''))))"

definition recognizeText :: "capabilities \<Rightarrow> js_string \<Rightarrow> effect list \<times> (js_thrown + js_string)" where
  "recognizeText caps uri =
     (case recognize caps uri of
        Inr result_text \<Rightarrow> ([], Inr result_text)
      | Inl err \<Rightarrow>
          ([ConsoleError (str ''OCR Error:'') (Thrown err)],
           Inl (JsError (str ''Text recognition failed.''))))"

text \<open>\<^verbatim>\<open>err instanceof Error ? err.message : 'Unknown error'\<close>\<close>

definition message_of :: "js_thrown \<Rightarrow> js_string" where
  "message_of err = (case err of JsError m \<Rightarrow> m | NonError \<Rightarrow> str ''Unknown error'')"

definition pipeline_catch :: "js_thrown \<Rightarrow> effect list \<times> (js_thrown + js_string list)" where
  "pipeline_catch err =
     (let message = message_of err
      in ([ConsoleError (str ''Process Pipeline Error:'') (Text message)],
          Inl (JsError (str ''Processing pipeline failed: '' @ message))))"

definition processImageAndExtractNumbers ::
    "capabilities \<Rightarrow> js_string \<Rightarrow> effect list \<times> (js_thrown + js_string list)" where
  "processImageAndExtractNumbers caps imageUri =
     (case cropImage caps imageUri of
        (log1, Inl err) \<Rightarrow> (case pipeline_catch err of (log, res) \<Rightarrow> (log1 @ log, res))
      | (log1, Inr croppedUri) \<Rightarrow>
          (case recognizeText caps croppedUri of
             (log2, Inl err) \<Rightarrow>
               (case pipeline_catch err of (log, res) \<Rightarrow> (log1 @ log2 @ log, res))
           | (log2, Inr ocrText) \<Rightarrow> (log1 @ log2, Inr (extractNumbers ocrText))))"

section \<open>components/NumberExtractorComponent.tsx\<close>

subsection \<open>\<^verbatim>\<open>String.prototype.trim\<close>\<close>

text \<open>
  \<^verbatim>\<open>trim\<close> removes the leading and the trailing code units that are ECMAScript
  white space or line terminators; all of them are single code units.
\<close>

definition isWhiteSpace :: "code_unit \<Rightarrow> bool" where
  "isWhiteSpace c =
     (c \<in> {0x0009, 0x000A, 0x000B, 0x000C, 0x000D, 0x0020, 0x00A0, 0x1680,
            0x2028, 0x2029, 0x202F, 0x205F, 0x3000, 0xFEFF}
      \<or> (0x2000 \<le> c \<and> c \<le> 0x200A))"

definition trim :: "js_string \<Rightarrow> js_string" where
  "trim s = rev (dropWhile isWhiteSpace (rev (dropWhile isWhiteSpace s)))"

subsection \<open>Props and state\<close>

text \<open>
  One instance of the component: the props it was last rendered with and the values of
  its seven state hooks. \<open>onProcessReset\<close> says whether the optional callback is
  supplied; \<open>onExtractionComplete\<close> is required, and a call of either is an effect.
\<close>

record component =
  imageUri :: "js_string option"
  onProcessReset :: bool
  allExtractedNumbers :: "js_string list"
  displayedNumbers :: "(js_string \<times> js_string) option"
  loading :: bool
  isModifyingNumbers :: bool
  numberInput1 :: js_string
  numberInput2 :: js_string
  showStartButton :: bool

text \<open>The initial values of the state hooks, for given props.\<close>

definition initial :: "js_string option \<Rightarrow> bool \<Rightarrow> component" where
  "initial uri reset =
     \<lparr>imageUri = uri, onProcessReset = reset, allExtractedNumbers = [],
      displayedNumbers = None, loading = False, isModifyingNumbers = False,
      numberInput1 = [], numberInput2 = [], showStartButton = False\<rparr>"

text \<open>\<^verbatim>\<open>!imageUri\<close>: \<^verbatim>\<open>null\<close> and the empty string are falsy.\<close>

definition no_uri :: "js_string option \<Rightarrow> bool" where
  "no_uri uri = (case uri of None \<Rightarrow> True | Some u \<Rightarrow> u = [])"

text \<open>The body of the effect hook that depends on \<^verbatim>\<open>[imageUri]\<close>.\<close>

definition useEffect_imageUri :: "component \<Rightarrow> component" where
  "useEffect_imageUri c =
     (if imageUri c \<noteq> None
      then c\<lparr>allExtractedNumbers := [], displayedNumbers := None, loading := False,
             isModifyingNumbers := False, numberInput1 := [], numberInput2 := [],
             showStartButton := False\<rparr>
      else c\<lparr>allExtractedNumbers := [], displayedNumbers := None, loading := False,
             isModifyingNumbers := False, numberInput1 := [], numberInput2 := [],
             showStartButton := False\<rparr>)"

text \<open>
  The parent renders the component with a new \<^verbatim>\<open>imageUri\<close>: the hook runs when the
  value differs from that of the previous render, and on the first render.
\<close>

definition mount :: "js_string option \<Rightarrow> bool \<Rightarrow> component" where
  "mount uri reset = useEffect_imageUri (initial uri reset)"

definition receive_imageUri :: "js_string option \<Rightarrow> component \<Rightarrow> component" where
  "receive_imageUri uri c =
     (if uri = imageUri c then c else useEffect_imageUri (c\<lparr>imageUri := uri\<rparr>))"

subsection \<open>The handlers\<close>

text \<open>
  \<^verbatim>\<open>handleProcessImage\<close> is asynchronous. Its first part runs when the button is
  pressed and ends at the \<^verbatim>\<open>await\<close>; what it keeps for later is the closure of that
  render (the image and the reset callback). Its second part runs when the pipeline
  settles, on the state the component has by then.
\<close>

record pending_run =
  run_imageUri :: js_string
  run_onProcessReset :: bool

definition handleProcessImage_call ::
    "component \<Rightarrow> (component \<times> effect list) \<times> pending_run option" where
  "handleProcessImage_call c =
     (case imageUri c of
        None \<Rightarrow> ((c, [Alert (str ''Error'') (str ''No image URI available for processing.'')]), None)
      | Some uri \<Rightarrow>
          if uri = []
          then ((c, [Alert (str ''Error'') (str ''No image URI available for processing.'')]), None)
          else ((c\<lparr>loading := True, allExtractedNumbers := [], displayedNumbers := None,
                    isModifyingNumbers := False, showStartButton := False\<rparr>, []),
                Some \<lparr>run_imageUri = uri, run_onProcessReset = onProcessReset c\<rparr>))"

definition call_onProcessReset :: "pending_run \<Rightarrow> effect list" where
  "call_onProcessReset run = (if run_onProcessReset run then [OnProcessReset] else [])"

definition handleProcessImage_resume ::
    "pending_run \<Rightarrow> js_thrown + js_string list \<Rightarrow> component \<Rightarrow> component \<times> effect list" where
  "handleProcessImage_resume run outcome c =
     (case outcome of
        Inr numbers \<Rightarrow>
          if 2 \<le> length numbers
          then (c\<lparr>allExtractedNumbers := numbers,
                  displayedNumbers := Some (numbers ! 0, numbers ! 1),
                  loading := False\<rparr>, [])
          else (c\<lparr>allExtractedNumbers := numbers, displayedNumbers := None, loading := False\<rparr>,
                [Alert (str ''Extraction Failed'')
                   (str ''Could not find at least two numbers in the selected area.'')]
                @ call_onProcessReset run)
      | Inl error \<Rightarrow>
          (c\<lparr>displayedNumbers := None, loading := False\<rparr>,
           [ConsoleError (str ''Error processing image:'') (Thrown error),
            Alert (str ''Processing Error'') (str ''An error occurred: '' @ message_of error)]
           @ call_onProcessReset run))"

text \<open>The whole call, when nothing else happens while the pipeline runs.\<close>

definition handleProcessImage :: "capabilities \<Rightarrow> component \<Rightarrow> component \<times> effect list" where
  "handleProcessImage caps c =
     (case handleProcessImage_call c of
        ((c1, fx1), None) \<Rightarrow> (c1, fx1)
      | ((c1, fx1), Some run) \<Rightarrow>
          (case processImageAndExtractNumbers caps (run_imageUri run) of
             (log, outcome) \<Rightarrow>
               (case handleProcessImage_resume run outcome c1 of
                  (c2, fx2) \<Rightarrow> (c2, fx1 @ log @ fx2))))"

definition handleModifyNumbers :: "component \<Rightarrow> component \<times> effect list" where
  "handleModifyNumbers c =
     (case displayedNumbers c of
        Some (n1, n2) \<Rightarrow>
          (c\<lparr>isModifyingNumbers := True, numberInput1 := n1, numberInput2 := n2,
             showStartButton := False\<rparr>, [])
      | None \<Rightarrow> (c, []))"

definition handleAcceptNumbers :: "component \<Rightarrow> component \<times> effect list" where
  "handleAcceptNumbers c =
     (case displayedNumbers c of
        Some pair \<Rightarrow> (c\<lparr>isModifyingNumbers := False, showStartButton := True\<rparr>, [])
      | None \<Rightarrow> (c, []))"

definition handleSaveChanges :: "component \<Rightarrow> component \<times> effect list" where
  "handleSaveChanges c =
     (let trimmedInput1 = trim (numberInput1 c);
          trimmedInput2 = trim (numberInput2 c)
      in if trimmedInput1 = [] \<or> trimmedInput2 = []
         then (c, [Alert (str ''Invalid Input'') (str ''Numbers cannot be empty.'')])
         else (c\<lparr>displayedNumbers := Some (trimmedInput1, trimmedInput2),
                 isModifyingNumbers := False, showStartButton := True\<rparr>, []))"

definition handleCancelModification :: "component \<Rightarrow> component \<times> effect list" where
  "handleCancelModification c = (c\<lparr>isModifyingNumbers := False\<rparr>, [])"

definition handleStart :: "component \<Rightarrow> component \<times> effect list" where
  "handleStart c =
     (case displayedNumbers c of
        Some pair \<Rightarrow> (c, [OnExtractionComplete pair])
      | None \<Rightarrow> (c, []))"

definition setNumberInput1 :: "js_string \<Rightarrow> component \<Rightarrow> component \<times> effect list" where
  "setNumberInput1 v c = (c\<lparr>numberInput1 := v\<rparr>, [])"

definition setNumberInput2 :: "js_string \<Rightarrow> component \<Rightarrow> component \<times> effect list" where
  "setNumberInput2 v c = (c\<lparr>numberInput2 := v\<rparr>, [])"

subsection \<open>What is rendered\<close>

text \<open>
  The branches of \<^verbatim>\<open>renderContent\<close>, in its order, each with what it shows: the text
  "No image selected yet."; the activity indicator; "Found n number(s)" with no control;
  the "Process Image" button; and, in \<open>render_review\<close>, the two numbers with
  "Modify Numbers" and "Accept & Continue"; the two text inputs with "Save Changes" and
  "Cancel"; the two numbers with "Start"; nothing.
\<close>

datatype screen =
    NoImageSelected
  | ActivityIndicator
  | FoundTooFew nat
  | ProcessImageButton
  | ModifyOrAccept js_string js_string
  | ModifyInputs js_string js_string
  | StartButton js_string js_string
  | Blank

definition render_review :: "component \<Rightarrow> screen" where
  "render_review c =
     (case displayedNumbers c of
        None \<Rightarrow> Blank
      | Some (n1, n2) \<Rightarrow>
          if \<not> isModifyingNumbers c \<and> \<not> showStartButton c then ModifyOrAccept n1 n2
          else if isModifyingNumbers c then ModifyInputs (numberInput1 c) (numberInput2 c)
          else if showStartButton c then StartButton n1 n2
          else Blank)"

definition renderContent :: "component \<Rightarrow> screen" where
  "renderContent c =
     (if no_uri (imageUri c) then NoImageSelected
      else if loading c then ActivityIndicator
      else if displayedNumbers c = None \<and> length (allExtractedNumbers c) < 2
      then (if 0 < length (allExtractedNumbers c)
            then FoundTooFew (length (allExtractedNumbers c))
            else if displayedNumbers c = None \<and> \<not> loading c then ProcessImageButton
            else render_review c)
      else render_review c)"

text \<open>\<^verbatim>\<open>disabled={!imageUri || loading || !!displayedNumbers}\<close> on "Process Image".\<close>

definition process_disabled :: "component \<Rightarrow> bool" where
  "process_disabled c = (no_uri (imageUri c) \<or> loading c \<or> displayedNumbers c \<noteq> None)"

text \<open>The controls of each screen, and the handler each one is bound to.\<close>

datatype control =
    ProcessImage
  | ModifyNumbers
  | AcceptAndContinue
  | ChangeText1 js_string
  | ChangeText2 js_string
  | SaveChanges
  | Cancel
  | Start

fun offered :: "screen \<Rightarrow> control \<Rightarrow> bool" where
  "offered ProcessImageButton ProcessImage = True"
| "offered (ModifyOrAccept n1 n2) ModifyNumbers = True"
| "offered (ModifyOrAccept n1 n2) AcceptAndContinue = True"
| "offered (ModifyInputs v1 v2) (ChangeText1 v) = True"
| "offered (ModifyInputs v1 v2) (ChangeText2 v) = True"
| "offered (ModifyInputs v1 v2) SaveChanges = True"
| "offered (ModifyInputs v1 v2) Cancel = True"
| "offered (StartButton n1 n2) Start = True"
| "offered scr ctl = False"

fun handler :: "capabilities \<Rightarrow> control \<Rightarrow> component \<Rightarrow> component \<times> effect list" where
  "handler caps ProcessImage c = handleProcessImage caps c"
| "handler caps ModifyNumbers c = handleModifyNumbers c"
| "handler caps AcceptAndContinue c = handleAcceptNumbers c"
| "handler caps (ChangeText1 v) c = setNumberInput1 v c"
| "handler caps (ChangeText2 v) c = setNumberInput2 v c"
| "handler caps SaveChanges c = handleSaveChanges c"
| "handler caps Cancel c = handleCancelModification c"
| "handler caps Start c = handleStart c"

text \<open>
  A user action reaches its handler only through a control that is on the screen and
  enabled. \<open>actions\<close> runs a sequence of them, each pipeline run settling before the
  next action.
\<close>

definition action :: "capabilities \<Rightarrow> control \<Rightarrow> component \<Rightarrow> component \<times> effect list" where
  "action caps ctl c =
     (if offered (renderContent c) ctl \<and> \<not> (ctl = ProcessImage \<and> process_disabled c)
      then handler caps ctl c else (c, []))"

fun actions :: "capabilities \<Rightarrow> control list \<Rightarrow> component \<Rightarrow> component \<times> effect list" where
  "actions caps [] c = (c, [])"
| "actions caps (ctl # ctls) c =
     (case action caps ctl c of
        (c1, fx1) \<Rightarrow> (case actions caps ctls c1 of (c2, fx2) \<Rightarrow> (c2, fx1 @ fx2)))"

subsection \<open>A run that settles late\<close>


section \<open>Example inputs\<close>

text \<open>Capabilities whose crop fails, whose recognition fails, and that read a given text.\<close>

definition failing_crop :: "js_thrown \<Rightarrow> capabilities" where
  "failing_crop cause = \<lparr>manipulateAsync = (\<lambda>uri c. Inl cause), recognize = (\<lambda>uri. Inr [])\<rparr>"

definition failing_ocr :: "js_thrown \<Rightarrow> capabilities" where
  "failing_ocr cause = \<lparr>manipulateAsync = (\<lambda>uri c. Inr uri), recognize = (\<lambda>uri. Inl cause)\<rparr>"

definition reading :: "js_string \<Rightarrow> capabilities" where
  "reading ocr = \<lparr>manipulateAsync = (\<lambda>uri c. Inr uri), recognize = (\<lambda>uri. Inr ocr)\<rparr>"

text \<open>The text \<^verbatim>\<open>36.6\<degree>C 101.2\<degree>C\<close>; the degree sign is the code unit \<^verbatim>\<open>0x00B0\<close>.\<close>

definition thermometer_text :: js_string where
  "thermometer_text = str ''36.6'' @ [0x00B0] @ str ''C 101.2'' @ [0x00B0] @ str ''C''"

text \<open>A component freshly mounted on an image, and states of its review.\<close>

definition fresh :: component where
  "fresh = mount (Some (str ''file:///a.png'')) True"

definition awaiting :: component where
  "awaiting = fresh\<lparr>allExtractedNumbers := [str ''36.6'', str ''101.2''],
                    displayedNumbers := Some (str ''36.6'', str ''101.2'')\<rparr>"

definition modifying :: "js_string \<Rightarrow> js_string \<Rightarrow> component" where
  "modifying v1 v2 = awaiting\<lparr>isModifyingNumbers := True, numberInput1 := v1, numberInput2 := v2\<rparr>"

definition ready :: component where
  "ready = awaiting\<lparr>showStartButton := True\<rparr>"

section \<open>Auxiliary notions\<close>

text \<open>The controls that edit a draft.\<close>

fun is_edit :: "control \<Rightarrow> bool" where
  "is_edit (ChangeText1 v) = True"
| "is_edit (ChangeText2 v) = True"
| "is_edit ctl = False"

text \<open>The state while the two numbers \<open>n1\<close> and \<open>n2\<close> are being modified.\<close>

definition in_modification :: "js_string \<Rightarrow> js_string \<Rightarrow> component \<Rightarrow> bool" where
  "in_modification n1 n2 c =
     (\<not> no_uri (imageUri c) \<and> \<not> loading c \<and> displayedNumbers c = Some (n1, n2) \<and>
      isModifyingNumbers c \<and> \<not> showStartButton c)"

text \<open>
  The length of the token that starts at the head of \<open>s\<close>, computed directly: the
  leading digits, and the full stop and the digits after it when there are some.
\<close>

definition token_length :: "js_string \<Rightarrow> nat option" where
  "token_length s =
     (let k = length (takeWhile is_decimal_digit s)
      in if k = 0 then None
         else Some (k + (case drop k s of
                           [] \<Rightarrow> 0
                         | d # e \<Rightarrow>
                             if d = decimal_point \<and> takeWhile is_decimal_digit e \<noteq> []
                             then Suc (length (takeWhile is_decimal_digit e)) else 0)))"

section \<open>The number extractor\<close>

lemma digit_iff: "class_ok Digit c = is_decimal_digit c"
proof -
  have "class_ok Digit c = (48 \<le> unat c \<and> unat c \<le> 57)"
    by (simp add: word_le_nat_alt)
  also have "\<dots> = (unat c \<in> {48, 49, 50, 51, 52, 53, 54, 55, 56, 57})"
    by (simp, arith)
  also have "\<dots> = is_decimal_digit c"
    by (simp add: is_decimal_digit_def str_def word_unat_eq_iff)
  finally show ?thesis .
qed

lemma class_ok_Digit: "class_ok Digit = is_decimal_digit"
  by (rule ext) (rule digit_iff)

lemma decimal_point_code: "decimal_point = 0x2E"
  by (simp add: decimal_point_def)

lemma plus_ends_Nil_iff: "plus_ends a s = [] \<longleftrightarrow> takeWhile (class_ok a) s = []"
  by (induction s) auto

lemma hd_plus_ends:
  "plus_ends a s \<noteq> [] \<Longrightarrow> hd (plus_ends a s) = length (takeWhile (class_ok a) s)"
proof (induction s)
  case Nil
  then show ?case by simp
next
  case (Cons c cs)
  then show ?case
    by (cases "plus_ends a cs = []") (auto simp: plus_ends_Nil_iff hd_append hd_map split: if_splits)
qed

lemma plus_ends_pos: "n \<in> set (plus_ends a s) \<Longrightarrow> 0 < n"
  by (induction s arbitrary: n) (auto split: if_splits)

lemma ends_fraction:
  "ends (Seq (One (Literal decimal_point)) (Plus Digit)) t =
     (case t of [] \<Rightarrow> [] | d # e \<Rightarrow> if d = decimal_point then map Suc (plus_ends Digit e) else [])"
  by (cases t) simp_all

lemma ends_number_regex:
  "ends number_regex s =
     concat (map (\<lambda>n. map ((+) n)
                    (ends (Opt (Seq (One (Literal decimal_point)) (Plus Digit))) (drop n s)))
               (plus_ends Digit s))"
  unfolding number_regex_def decimal_point_code
  by (subst ends.simps(3)) (simp only: ends.simps(2))

lemma ends_optional_fraction:
  "ends (Opt (Seq (One (Literal decimal_point)) (Plus Digit))) t =
     (case t of [] \<Rightarrow> [] | d # e \<Rightarrow> if d = decimal_point then map Suc (plus_ends Digit e) else []) @ [0]"
proof -
  let ?frac = "ends (Seq (One (Literal decimal_point)) (Plus Digit)) t"
  have "filter (\<lambda>n. 0 < n) ?frac = ?frac"
    by (auto simp: ends_fraction filter_id_conv split: list.splits)
  then have "ends (Opt (Seq (One (Literal decimal_point)) (Plus Digit))) t = ?frac @ [0]"
    by (simp only: ends.simps(4))
  then show ?thesis
    by (simp only: ends_fraction)
qed

lemma hd_optional_fraction:
  "hd (ends (Opt (Seq (One (Literal decimal_point)) (Plus Digit))) t) =
     (case t of [] \<Rightarrow> 0
      | d # e \<Rightarrow> if d = decimal_point \<and> takeWhile is_decimal_digit e \<noteq> []
                 then Suc (length (takeWhile is_decimal_digit e)) else 0)"
  using hd_plus_ends [of Digit]
  by (auto simp: ends_optional_fraction hd_append hd_map plus_ends_Nil_iff class_ok_Digit
      split: list.splits)

lemma match_at_number_regex: "match_at number_regex s = token_length s"
proof (cases "plus_ends Digit s")
  case Nil
  then have "takeWhile is_decimal_digit s = []"
    by (simp add: plus_ends_Nil_iff class_ok_Digit)
  then have "token_length s = None"
    by (simp add: token_length_def)
  moreover from Nil have "match_at number_regex s = None"
    by (simp add: match_at_def ends_number_regex)
  ultimately show ?thesis by simp
next
  case (Cons k ks)
  then have k: "k = length (takeWhile is_decimal_digit s)"
    using hd_plus_ends [of Digit s] by (simp add: class_ok_Digit)
  from Cons have "0 < k"
    using plus_ends_pos [of k Digit s] by simp
  let ?opt = "ends (Opt (Seq (One (Literal decimal_point)) (Plus Digit))) (drop k s)"
  have "?opt \<noteq> []"
    by (simp add: ends_optional_fraction)
  then obtain m ms where opt: "?opt = m # ms"
    by (cases ?opt) auto
  then have "m = hd ?opt" by simp
  moreover have "match_at number_regex s = Some (k + m)"
    by (simp add: match_at_def ends_number_regex Cons opt del: ends.simps)
  ultimately show ?thesis
    using \<open>0 < k\<close>
    by (simp add: token_length_def k [symmetric] hd_optional_fraction del: ends.simps)
qed

lemma token_length_bounds: "token_length s = Some n \<Longrightarrow> 0 < n \<and> n \<le> length s"
proof -
  assume a: "token_length s = Some n"
  let ?k = "length (takeWhile is_decimal_digit s)"
  have ks: "?k \<le> length s" by (rule length_takeWhile_le)
  show ?thesis
  proof (cases "drop ?k s")
    case Nil
    with a ks show ?thesis by (auto simp: token_length_def Let_def split: if_splits)
  next
    case (Cons d e)
    have "length (takeWhile is_decimal_digit e) \<le> length e" by (rule length_takeWhile_le)
    moreover have "length s - ?k = Suc (length e)"
      using Cons by (metis length_drop length_Cons)
    ultimately show ?thesis
      using a ks Cons by (auto simp: token_length_def Let_def split: if_splits)
  qed
qed

lemma list_all_take_iff:
  "m \<le> length e \<Longrightarrow> list_all P (take m e) \<longleftrightarrow> m \<le> length (takeWhile P e)"
proof (induction e arbitrary: m)
  case Nil
  then show ?case by simp
next
  case (Cons x xs)
  then show ?case by (cases m) auto
qed

lemma is_numeric_token_take:
  assumes "j \<le> length s"
  shows "is_numeric_token (take j s) \<longleftrightarrow>
     (0 < j \<and> j \<le> length (takeWhile is_decimal_digit s)) \<or>
     (0 < length (takeWhile is_decimal_digit s) \<and>
      (\<exists>e. drop (length (takeWhile is_decimal_digit s)) s = decimal_point # e \<and>
           length (takeWhile is_decimal_digit s) + 1 < j \<and>
           j \<le> length (takeWhile is_decimal_digit s) + 1 + length (takeWhile is_decimal_digit e)))"
proof -
  define a where "a = takeWhile is_decimal_digit s"
  define t where "t = dropWhile is_decimal_digit s"
  have s: "s = a @ t" by (simp add: a_def t_def)
  have a: "\<forall>x\<in>set a. is_decimal_digit x" by (auto simp: a_def dest: set_takeWhileD)
  have t: "t = [] \<or> \<not> is_decimal_digit (hd t)"
    unfolding t_def by (metis hd_dropWhile)
  have dr: "drop (length a) s = t" by (simp add: s)
  show ?thesis
  proof (cases "j \<le> length a")
    case True
    then have tk: "take j s = take j a" by (simp add: s)
    have all: "\<forall>x\<in>set (take j a). is_decimal_digit x"
      using a by (auto dest: in_set_takeD)
    have tw: "takeWhile is_decimal_digit (take j a) = take j a"
      using all by (simp add: takeWhile_eq_all_conv)
    have dw: "dropWhile is_decimal_digit (take j a) = []"
      using all by simp
    have "is_numeric_token (take j s) \<longleftrightarrow> take j a \<noteq> []"
      unfolding is_numeric_token_def tk tw dw by simp
    also have "\<dots> \<longleftrightarrow> 0 < j" using True by (cases a) auto
    finally show ?thesis using True by (auto simp: a_def [symmetric])
  next
    case False
    then have "t \<noteq> []" using assms by (auto simp: s)
    then obtain d e where de: "t = d # e" by (cases t) auto
    with t have nd: "\<not> is_decimal_digit d" by simp
    have m: "j - length a - 1 \<le> length e" using assms by (simp add: s de)
    from False have tk: "take j s = a @ d # take (j - length a - 1) e"
      by (cases "j - length a") (auto simp: s de)
    have tw: "takeWhile is_decimal_digit (take j s) = a"
      and dw: "dropWhile is_decimal_digit (take j s) = d # take (j - length a - 1) e"
      using a nd by (simp_all add: tk takeWhile_append2 dropWhile_append2)
    have "is_numeric_token (take j s) \<longleftrightarrow>
        a \<noteq> [] \<and> d = decimal_point \<and> 0 < j - length a - 1 \<and>
        j - length a - 1 \<le> length (takeWhile is_decimal_digit e)"
      using m by (auto simp: is_numeric_token_def tw dw list_all_take_iff)
    then show ?thesis
      using False by (auto simp: a_def [symmetric] dr de)
  qed
qed

lemma longest_token_upto_None:
  "(\<And>j. 0 < j \<Longrightarrow> j \<le> n \<Longrightarrow> \<not> is_numeric_token (take j s)) \<Longrightarrow> longest_token_upto n s = None"
  by (induction n) auto

lemma longest_token_upto_Some:
  "0 < m \<Longrightarrow> m \<le> n \<Longrightarrow> is_numeric_token (take m s) \<Longrightarrow>
   (\<And>j. m < j \<Longrightarrow> j \<le> n \<Longrightarrow> \<not> is_numeric_token (take j s)) \<Longrightarrow>
   longest_token_upto n s = Some (take m s)"
proof (induction n)
  case 0
  then show ?case by simp
next
  case (Suc n)
  show ?case
  proof (cases "m = Suc n")
    case True
    with Suc.prems show ?thesis by simp
  next
    case False
    with Suc.prems have "m \<le> n" by simp
    moreover have "\<not> is_numeric_token (take (Suc n) s)"
      using Suc.prems(4) [of "Suc n"] \<open>m \<le> n\<close> by simp
    ultimately show ?thesis
      using Suc.IH Suc.prems by simp
  qed
qed

lemma longest_token_eq: "longest_token s = map_option (\<lambda>n. take n s) (token_length s)"
proof (cases "token_length s")
  case None
  then have "takeWhile is_decimal_digit s = []"
    by (simp add: token_length_def Let_def split: if_splits)
  then have "\<not> is_numeric_token (take j s)" if "j \<le> length s" for j
    using is_numeric_token_take [OF that] by auto
  then show ?thesis
    using None by (simp add: longest_token_def longest_token_upto_None)
next
  case (Some m)
  then have b: "0 < m" "m \<le> length s"
    using token_length_bounds by blast+
  have tok: "is_numeric_token (take m s)"
    using Some b is_numeric_token_take [OF b(2)]
    by (auto simp: token_length_def Let_def split: if_splits list.splits)
  have "\<not> is_numeric_token (take j s)" if "m < j" "j \<le> length s" for j
    using Some that is_numeric_token_take [OF that(2)]
    by (auto simp: token_length_def Let_def split: if_splits list.splits)
  then show ?thesis
    using Some b tok by (simp add: longest_token_def longest_token_upto_Some)
qed

lemma match_global_spec_tokens: "match_global number_regex s = spec_tokens s"
proof (induction s rule: spec_tokens.induct)
  case 1
  show ?case
    by (simp add: match_at_number_regex token_length_def)
next
  case (2 c cs)
  show ?case
  proof (cases "token_length (c # cs)")
    case None
    then show ?thesis
      using 2(1) by (simp add: match_at_number_regex longest_token_eq)
  next
    case (Some n)
    then have "0 < n" "n \<le> length (c # cs)"
      using token_length_bounds by blast+
    then show ?thesis
      using Some 2(2) [of "take n (c # cs)"]
      by (simp add: match_at_number_regex longest_token_eq min_absorb2 del: take_Suc_Cons drop_Suc_Cons)
  qed
qed

lemma longest_token_upto_numeric: "longest_token_upto n s = Some t \<Longrightarrow> is_numeric_token t"
  by (induction n) (auto split: if_splits)

lemma spec_tokens_numeric: "t \<in> set (spec_tokens s) \<Longrightarrow> is_numeric_token t"
proof (induction s rule: spec_tokens.induct)
  case 1
  then show ?case by simp
next
  case (2 c cs)
  show ?case
  proof (cases "longest_token (c # cs)")
    case None
    with 2 show ?thesis by simp
  next
    case (Some u)
    then have "is_numeric_token u"
      unfolding longest_token_def by (rule longest_token_upto_numeric)
    with 2 Some show ?thesis by auto
  qed
qed

lemma spec_tokens_no_digit: "list_all (\<lambda>c. \<not> is_decimal_digit c) s \<Longrightarrow> spec_tokens s = []"
  by (induction s) (simp_all add: longest_token_eq token_length_def)

text \<open>
  C1. For every text, \<open>extractNumbers\<close> returns the tokens of the left-to-right scan
  that takes, at the first position where a token starts, the longest prefix matching
  "one or more digits, optionally a decimal point and one or more digits", and goes on
  after it. Every element of the result matches the pattern. The function is total, and
  a text without a digit, the empty text included, gives the empty list.
\<close>

theorem extractNumbers_maximal_tokens:
  "extractNumbers text = spec_tokens text \<and>
   (\<forall>t \<in> set (extractNumbers text). is_numeric_token t) \<and>
   (list_all (\<lambda>c. \<not> is_decimal_digit c) text \<longrightarrow> extractNumbers text = []) \<and>
   extractNumbers [] = []"
proof -
  have eq: "extractNumbers s = spec_tokens s" for s
    by (simp add: extractNumbers_def String_match_def match_global_spec_tokens split: list.splits)
  show ?thesis
    by (auto simp: eq spec_tokens_numeric spec_tokens_no_digit)
qed

theorem extractNumbers_maximal_tokens_witness:
  "extractNumbers (str ''Temp: 36.6 / 101.2F'') = [str ''36.6'', str ''101.2''] \<and>
   is_numeric_token (str ''36.6'') \<and> is_numeric_token (str ''101.2'') \<and>
   list_all (\<lambda>c. \<not> is_decimal_digit c) (str ''no numbers here'') \<and>
   extractNumbers (str ''no numbers here'') = []"
proof -
  have scan: "spec_tokens (str ''Temp: 36.6 / 101.2F'') = [str ''36.6'', str ''101.2'']"
    by code_simp
  have none: "list_all (\<lambda>c. \<not> is_decimal_digit c) (str ''no numbers here'')"
    by code_simp
  note found = extractNumbers_maximal_tokens [of "str ''Temp: 36.6 / 101.2F''"]
  note empty = extractNumbers_maximal_tokens [of "str ''no numbers here''"]
  have e1: "extractNumbers (str ''Temp: 36.6 / 101.2F'') = [str ''36.6'', str ''101.2'']"
    using found scan by simp
  have e2: "is_numeric_token (str ''36.6'') \<and> is_numeric_token (str ''101.2'')"
    using found e1 by simp
  have e3: "extractNumbers (str ''no numbers here'') = []"
    using empty none by blast
  show ?thesis
    using e1 e2 e3 none by simp
qed

section \<open>The pipeline\<close>

lemma pipeline_result:
  "snd (processImageAndExtractNumbers caps uri) =
     (case manipulateAsync caps uri crop_action of
        Inl cause \<Rightarrow> Inl (JsError (str ''Processing pipeline failed: Image cropping failed.''))
      | Inr cropped \<Rightarrow>
          (case recognize caps cropped of
             Inl cause \<Rightarrow> Inl (JsError (str ''Processing pipeline failed: Text recognition failed.''))
           | Inr ocr \<Rightarrow> Inr (extractNumbers ocr)))"
  by (simp add: processImageAndExtractNumbers_def cropImage_def recognizeText_def
      pipeline_catch_def message_of_def str_def Let_def split: sum.splits)

lemma pipeline_log:
  "e \<in> set (fst (processImageAndExtractNumbers caps uri)) \<Longrightarrow> \<exists>l a. e = ConsoleError l a"
  by (auto simp: processImageAndExtractNumbers_def cropImage_def recognizeText_def
      pipeline_catch_def Let_def split: sum.splits)

text \<open>
  C5, as the code has it. A pipeline run fails exactly when a stage fails, with one
  \<open>JsError\<close> whose message is "Processing pipeline failed: " followed by the fixed message
  of the stage that failed: "Image cropping failed." for the crop, "Text recognition
  failed." for the recognition. The crop stage fails with the fixed message alone. The
  value the capability threw is in neither; it only goes to the console.
\<close>

theorem pipeline_failure_names_stage:
  "snd (processImageAndExtractNumbers caps uri) =
     (case manipulateAsync caps uri crop_action of
        Inl cause \<Rightarrow> Inl (JsError (str ''Processing pipeline failed: Image cropping failed.''))
      | Inr cropped \<Rightarrow>
          (case recognize caps cropped of
             Inl cause \<Rightarrow> Inl (JsError (str ''Processing pipeline failed: Text recognition failed.''))
           | Inr ocr \<Rightarrow> Inr (extractNumbers ocr))) \<and>
   cropImage caps uri =
     (case manipulateAsync caps uri crop_action of
        Inl cause \<Rightarrow> ([ConsoleError (str ''Crop Error:'') (Thrown cause)],
                      Inl (JsError (str ''Image cropping failed.'')))
      | Inr cropped \<Rightarrow> ([], Inr cropped))"
  by (simp add: pipeline_result cropImage_def split: sum.splits)

theorem pipeline_failure_names_stage_witness:
  "snd (processImageAndExtractNumbers (failing_ocr NonError) (str ''file:///a.png'')) =
     Inl (JsError (str ''Processing pipeline failed: Text recognition failed.'')) \<and>
   snd (processImageAndExtractNumbers (failing_crop (JsError (str ''out of memory'')))
          (str ''file:///a.png'')) =
     Inl (JsError (str ''Processing pipeline failed: Image cropping failed.'')) \<and>
   cropImage (failing_crop (JsError (str ''out of memory''))) (str ''file:///a.png'') =
     ([ConsoleError (str ''Crop Error:'') (Thrown (JsError (str ''out of memory'')))],
      Inl (JsError (str ''Image cropping failed.'')))"
  using pipeline_failure_names_stage [of "failing_ocr NonError" "str ''file:///a.png''"]
    pipeline_failure_names_stage [of "failing_crop (JsError (str ''out of memory''))"
      "str ''file:///a.png''"]
  by (simp add: failing_ocr_def failing_crop_def)

text \<open>
  C5, as it is stated, fails: when the crop capability throws "out of memory", the crop
  stage and the pipeline fail with messages that do not contain it.
\<close>

theorem pipeline_failure_drops_cause:
  "snd (cropImage (failing_crop (JsError (str ''out of memory''))) (str ''file:///a.png'')) =
     Inl (JsError (str ''Image cropping failed.'')) \<and>
   \<not> sublist (str ''out of memory'') (str ''Image cropping failed.'') \<and>
   snd (processImageAndExtractNumbers (failing_crop (JsError (str ''out of memory'')))
          (str ''file:///a.png'')) =
     Inl (JsError (str ''Processing pipeline failed: Image cropping failed.'')) \<and>
   \<not> sublist (str ''out of memory'') (str ''Processing pipeline failed: Image cropping failed.'')"
proof -
  have "\<not> sublist (str ''out of memory'') (str ''Image cropping failed.'')"
    by code_simp
  moreover have
    "\<not> sublist (str ''out of memory'') (str ''Processing pipeline failed: Image cropping failed.'')"
    by code_simp
  ultimately show ?thesis
    by (simp add: pipeline_result cropImage_def failing_crop_def)
qed

section \<open>The review\<close>

subsection \<open>What the screens say about the state\<close>

lemma ProcessImageButton_state:
  "renderContent c = ProcessImageButton \<Longrightarrow>
     \<not> no_uri (imageUri c) \<and> \<not> loading c \<and> displayedNumbers c = None \<and>
     allExtractedNumbers c = []"
  by (auto simp: renderContent_def render_review_def split: if_splits option.splits)

lemma ModifyOrAccept_state:
  "renderContent c = ModifyOrAccept n1 n2 \<Longrightarrow>
     \<not> no_uri (imageUri c) \<and> \<not> loading c \<and> displayedNumbers c = Some (n1, n2) \<and>
     \<not> isModifyingNumbers c \<and> \<not> showStartButton c"
  by (auto simp: renderContent_def render_review_def split: if_splits option.splits)

lemma ModifyInputs_state:
  "renderContent c = ModifyInputs v1 v2 \<Longrightarrow>
     \<not> no_uri (imageUri c) \<and> \<not> loading c \<and> displayedNumbers c \<noteq> None \<and>
     isModifyingNumbers c \<and> numberInput1 c = v1 \<and> numberInput2 c = v2"
  by (auto simp: renderContent_def render_review_def split: if_splits option.splits)

lemma StartButton_state:
  "renderContent c = StartButton n1 n2 \<Longrightarrow>
     \<not> no_uri (imageUri c) \<and> \<not> loading c \<and> displayedNumbers c = Some (n1, n2) \<and>
     \<not> isModifyingNumbers c \<and> showStartButton c"
  by (auto simp: renderContent_def render_review_def split: if_splits option.splits)

lemma in_modification_screen:
  "in_modification n1 n2 c \<Longrightarrow> renderContent c = ModifyInputs (numberInput1 c) (numberInput2 c)"
  by (simp add: in_modification_def renderContent_def render_review_def)

lemma fresh_eq: "fresh = initial (Some (str ''file:///a.png'')) True"
  by (simp add: fresh_def mount_def useEffect_imageUri_def initial_def)

lemma fresh_has_uri: "\<not> no_uri (imageUri fresh)"
  by (simp add: fresh_eq initial_def no_uri_def str_def)

lemma modifying_screen: "renderContent (modifying v1 v2) = ModifyInputs v1 v2"
  using fresh_has_uri
  by (simp add: modifying_def awaiting_def renderContent_def render_review_def)
    (simp add: fresh_eq initial_def)

lemma awaiting_screen: "renderContent awaiting = ModifyOrAccept (str ''36.6'') (str ''101.2'')"
  using fresh_has_uri
  by (simp add: awaiting_def renderContent_def render_review_def)
    (simp add: fresh_eq initial_def)

lemma ready_screen: "renderContent ready = StartButton (str ''36.6'') (str ''101.2'')"
  using fresh_has_uri
  by (simp add: ready_def awaiting_def renderContent_def render_review_def)
    (simp add: fresh_eq initial_def)

subsection \<open>Trimming\<close>

lemma trim_decomposition:
  "\<exists>l r. s = l @ trim s @ r \<and> list_all isWhiteSpace l \<and> list_all isWhiteSpace r"
proof -
  let ?m = "dropWhile isWhiteSpace s"
  have "rev ?m = takeWhile isWhiteSpace (rev ?m) @ dropWhile isWhiteSpace (rev ?m)"
    by simp
  then have "rev (rev ?m) =
      rev (dropWhile isWhiteSpace (rev ?m)) @ rev (takeWhile isWhiteSpace (rev ?m))"
    by (metis rev_append)
  then have m: "?m = trim s @ rev (takeWhile isWhiteSpace (rev ?m))"
    by (simp add: trim_def)
  have "s = takeWhile isWhiteSpace s @ ?m"
    by simp
  with m have "s = takeWhile isWhiteSpace s @ trim s @ rev (takeWhile isWhiteSpace (rev ?m))"
    by simp
  moreover have "list_all isWhiteSpace (takeWhile isWhiteSpace s)"
    by (auto simp: list_all_iff dest: set_takeWhileD)
  moreover have "list_all isWhiteSpace (rev (takeWhile isWhiteSpace (rev ?m)))"
    by (auto simp: list_all_iff dest: set_takeWhileD)
  ultimately show ?thesis by blast
qed

lemma last_dropWhile: "dropWhile P xs \<noteq> [] \<Longrightarrow> last (dropWhile P xs) = last xs"
  by (metis last_appendR takeWhile_dropWhile_id)

lemma trim_ends:
  assumes "trim s \<noteq> []"
  shows "\<not> isWhiteSpace (hd (trim s)) \<and> \<not> isWhiteSpace (last (trim s))"
proof -
  let ?m = "dropWhile isWhiteSpace s"
  let ?d = "dropWhile isWhiteSpace (rev ?m)"
  from assms have d: "?d \<noteq> []" by (simp add: trim_def)
  have m: "?m \<noteq> []"
  proof
    assume "?m = []"
    then have "rev ?m = []" by (simp only: rev.simps)
    then have "?d = []" by (simp only: dropWhile.simps)
    with d show False by blast
  qed
  have "last (trim s) = hd ?d"
    using d by (simp add: trim_def last_rev)
  moreover have "\<not> isWhiteSpace (hd ?d)"
    using d by (rule hd_dropWhile)
  moreover have "hd (trim s) = last ?d"
    using d by (simp add: trim_def hd_rev)
  moreover have "last ?d = hd ?m"
    using d m by (simp add: last_dropWhile last_rev)
  moreover have "\<not> isWhiteSpace (hd ?m)"
    using m by (rule hd_dropWhile)
  ultimately show ?thesis by simp
qed

subsection \<open>Save\<close>

text \<open>
  C6. In every state that shows the two inputs (Modifying), when a draft is empty after
  trimming, "Save Changes" only raises the alert "Invalid Input": the state, with both
  drafts and the pair, is unchanged, and no callback is called.
\<close>

theorem save_rejects_empty_draft:
  assumes "renderContent c = ModifyInputs v1 v2"
    and "trim v1 = [] \<or> trim v2 = []"
  shows "handleSaveChanges c = (c, [Alert (str ''Invalid Input'') (str ''Numbers cannot be empty.'')]) \<and>
         action caps SaveChanges c = handleSaveChanges c \<and>
         renderContent (fst (action caps SaveChanges c)) = ModifyInputs v1 v2"
  using assms ModifyInputs_state [OF assms(1)]
  by (auto simp: handleSaveChanges_def action_def Let_def)

theorem save_rejects_empty_draft_witness:
  "renderContent (modifying [] (str ''100'')) = ModifyInputs [] (str ''100'') \<and>
   trim [] = [] \<and>
   action (reading []) SaveChanges (modifying [] (str ''100'')) =
     (modifying [] (str ''100''),
      [Alert (str ''Invalid Input'') (str ''Numbers cannot be empty.'')])"
proof -
  have t: "trim [] = [] \<or> trim (str ''100'') = []"
    by (simp add: trim_def)
  show ?thesis
    using save_rejects_empty_draft [OF modifying_screen t, of "reading []"]
    by (simp add: modifying_screen trim_def)
qed

text \<open>
  C7. In every state that shows the two inputs (Modifying), when both drafts are
  non-empty after trimming, "Save Changes" leads to the screen with "Start" (Ready) and
  the pair is the two trimmed drafts. A trimmed draft is the draft without a leading and
  a trailing run of white space, and neither starts nor ends with white space.
\<close>

theorem save_stores_trimmed_drafts:
  assumes "renderContent c = ModifyInputs v1 v2"
    and "trim v1 \<noteq> []" and "trim v2 \<noteq> []"
  shows "action caps SaveChanges c = handleSaveChanges c \<and>
         snd (handleSaveChanges c) = [] \<and>
         renderContent (fst (handleSaveChanges c)) = StartButton (trim v1) (trim v2) \<and>
         displayedNumbers (fst (handleSaveChanges c)) = Some (trim v1, trim v2) \<and>
         (\<forall>v \<in> {v1, v2}.
            (\<exists>l r. v = l @ trim v @ r \<and> list_all isWhiteSpace l \<and> list_all isWhiteSpace r) \<and>
            \<not> isWhiteSpace (hd (trim v)) \<and> \<not> isWhiteSpace (last (trim v)))"
proof -
  note st = ModifyInputs_state [OF assms(1)]
  have "action caps SaveChanges c = handleSaveChanges c"
    using assms(1) by (simp add: action_def)
  moreover have "snd (handleSaveChanges c) = []"
    using assms st by (simp add: handleSaveChanges_def Let_def)
  moreover have "displayedNumbers (fst (handleSaveChanges c)) = Some (trim v1, trim v2)"
    using assms st by (simp add: handleSaveChanges_def Let_def)
  moreover have "renderContent (fst (handleSaveChanges c)) = StartButton (trim v1) (trim v2)"
    using assms st by (simp add: handleSaveChanges_def Let_def renderContent_def render_review_def)
  moreover have "\<forall>v \<in> {v1, v2}.
      (\<exists>l r. v = l @ trim v @ r \<and> list_all isWhiteSpace l \<and> list_all isWhiteSpace r) \<and>
      \<not> isWhiteSpace (hd (trim v)) \<and> \<not> isWhiteSpace (last (trim v))"
    using assms(2,3) trim_decomposition trim_ends by blast
  ultimately show ?thesis by blast
qed

theorem save_stores_trimmed_drafts_witness:
  "renderContent (modifying (str '' 10 '') (str ''20'')) = ModifyInputs (str '' 10 '') (str ''20'') \<and>
   trim (str '' 10 '') = str ''10'' \<and> trim (str ''20'') = str ''20'' \<and>
   renderContent (fst (handleSaveChanges (modifying (str '' 10 '') (str ''20'')))) =
     StartButton (str ''10'') (str ''20'')"
proof -
  have t1: "trim (str '' 10 '') = str ''10''" and t2: "trim (str ''20'') = str ''20''"
    by (simp_all add: trim_def isWhiteSpace_def str_def)
  have n1: "trim (str '' 10 '') \<noteq> []" and n2: "trim (str ''20'') \<noteq> []"
    by (simp_all only: t1 t2) (simp_all add: str_def)
  show ?thesis
    using save_stores_trimmed_drafts [OF modifying_screen n1 n2, of "reading []"]
    by (simp add: modifying_screen t1 t2)
qed

subsection \<open>Without a pair\<close>

text \<open>
  C10. In every state without a pair (\<open>displayedNumbers\<close> is \<^verbatim>\<open>null\<close>), the handlers of
  "Modify Numbers", "Accept & Continue" and "Start" return normally, leave the whole
  state as it is and call no callback; so do the three controls.
\<close>

theorem handlers_ignore_missing_pair:
  assumes "displayedNumbers c = None"
  shows "handleModifyNumbers c = (c, []) \<and> handleAcceptNumbers c = (c, []) \<and>
         handleStart c = (c, []) \<and>
         (\<forall>ctl \<in> {ModifyNumbers, AcceptAndContinue, Start}. action caps ctl c = (c, []))"
  using assms
  by (simp add: handleModifyNumbers_def handleAcceptNumbers_def handleStart_def action_def)

theorem handlers_ignore_missing_pair_witness:
  "displayedNumbers fresh = None \<and>
   handleModifyNumbers fresh = (fresh, []) \<and> handleAcceptNumbers fresh = (fresh, []) \<and>
   handleStart fresh = (fresh, []) \<and> action (reading []) Start fresh = (fresh, [])"
proof -
  have none: "displayedNumbers fresh = None"
    by (simp add: fresh_eq initial_def)
  show ?thesis
    using handlers_ignore_missing_pair [OF none, of "reading []"] none by simp
qed

subsection \<open>Modify and cancel\<close>

lemma actions_append:
  "actions caps (xs @ ys) c =
     (case actions caps xs c of
        (c1, fx1) \<Rightarrow> (case actions caps ys c1 of (c2, fx2) \<Rightarrow> (c2, fx1 @ fx2)))"
  by (induction xs arbitrary: c) (simp_all split: prod.splits)

lemma edit_keeps_modification:
  assumes "in_modification n1 n2 c" and "is_edit ctl"
  shows "in_modification n1 n2 (fst (action caps ctl c)) \<and> snd (action caps ctl c) = []"
proof (cases ctl)
  case (ChangeText1 v)
  with assms(1) in_modification_screen [OF assms(1)] show ?thesis
    by (simp add: action_def setNumberInput1_def in_modification_def)
next
  case (ChangeText2 v)
  with assms(1) in_modification_screen [OF assms(1)] show ?thesis
    by (simp add: action_def setNumberInput2_def in_modification_def)
qed (use assms(2) in simp_all)

lemma edits_keep_modification:
  "in_modification n1 n2 c \<Longrightarrow> \<forall>ctl \<in> set edits. is_edit ctl \<Longrightarrow>
     in_modification n1 n2 (fst (actions caps edits c)) \<and> snd (actions caps edits c) = []"
proof (induction edits arbitrary: c)
  case Nil
  then show ?case by simp
next
  case (Cons ctl edits)
  obtain c1 fx1 where a: "action caps ctl c = (c1, fx1)"
    by (cases "action caps ctl c")
  from Cons.prems have "in_modification n1 n2 c1" and fx1: "fx1 = []"
    using edit_keeps_modification [of n1 n2 c ctl caps] by (simp_all add: a)
  with Cons.IH [of c1] Cons.prems(2)
  have "in_modification n1 n2 (fst (actions caps edits c1))"
    and "snd (actions caps edits c1) = []"
    by simp_all
  then show ?case
    by (simp add: a fx1 split: prod.splits)
qed

text \<open>
  C8. From every state that shows the pair with "Modify Numbers" and "Accept & Continue"
  (AwaitingDecision), "Modify Numbers" shows the two inputs, filled with the two numbers
  of the pair; and after any edits of the two inputs, "Cancel" shows the same pair with
  the same two controls again: the pair is the one the state had before, and no callback
  was called.
\<close>

theorem modify_then_cancel_keeps_pair:
  assumes "renderContent c = ModifyOrAccept n1 n2"
    and "\<forall>ctl \<in> set edits. is_edit ctl"
  shows "action caps ModifyNumbers c = handleModifyNumbers c \<and>
         renderContent (fst (action caps ModifyNumbers c)) = ModifyInputs n1 n2 \<and>
         renderContent (fst (actions caps (ModifyNumbers # edits @ [Cancel]) c)) =
           ModifyOrAccept n1 n2 \<and>
         displayedNumbers (fst (actions caps (ModifyNumbers # edits @ [Cancel]) c)) =
           displayedNumbers c \<and>
         snd (actions caps (ModifyNumbers # edits @ [Cancel]) c) = []"
proof -
  note st = ModifyOrAccept_state [OF assms(1)]
  define c1 where "c1 = fst (handleModifyNumbers c)"
  define c2 where "c2 = fst (actions caps edits c1)"
  have modify: "action caps ModifyNumbers c = (c1, [])"
    using assms(1) st by (simp add: action_def c1_def handleModifyNumbers_def)
  have m1: "in_modification n1 n2 c1" and inputs: "numberInput1 c1 = n1" "numberInput2 c1 = n2"
    using st by (simp_all add: c1_def handleModifyNumbers_def in_modification_def)
  have m2: "in_modification n1 n2 c2" and quiet: "snd (actions caps edits c1) = []"
    using edits_keep_modification [OF m1 assms(2), of caps] by (simp_all add: c2_def)
  have edited: "actions caps edits c1 = (c2, [])"
    using quiet by (simp add: c2_def prod_eq_iff)
  have cancel: "action caps Cancel c2 = (c2\<lparr>isModifyingNumbers := False\<rparr>, [])"
    using in_modification_screen [OF m2]
    by (simp add: action_def handleCancelModification_def)
  have all: "actions caps (ModifyNumbers # edits @ [Cancel]) c =
      (c2\<lparr>isModifyingNumbers := False\<rparr>, [])"
    by (simp add: modify actions_append edited cancel)
  have "renderContent (fst (actions caps (ModifyNumbers # edits @ [Cancel]) c)) =
      ModifyOrAccept n1 n2"
    unfolding all using m2 by (simp add: in_modification_def renderContent_def render_review_def)
  moreover have "displayedNumbers (fst (actions caps (ModifyNumbers # edits @ [Cancel]) c)) =
      displayedNumbers c"
    unfolding all using m2 st by (simp add: in_modification_def)
  moreover have "snd (actions caps (ModifyNumbers # edits @ [Cancel]) c) = []"
    unfolding all by simp
  moreover have "action caps ModifyNumbers c = handleModifyNumbers c"
    using assms(1) by (simp add: action_def)
  moreover have "renderContent (fst (action caps ModifyNumbers c)) = ModifyInputs n1 n2"
    unfolding modify using in_modification_screen [OF m1] inputs by simp
  ultimately show ?thesis
    by blast
qed

theorem modify_then_cancel_keeps_pair_witness:
  "renderContent awaiting = ModifyOrAccept (str ''36.6'') (str ''101.2'') \<and>
   renderContent (fst (action (reading []) ModifyNumbers awaiting)) =
     ModifyInputs (str ''36.6'') (str ''101.2'') \<and>
   renderContent (fst (actions (reading [])
       [ModifyNumbers, ChangeText1 (str ''40''), ChangeText2 [], Cancel] awaiting)) =
     ModifyOrAccept (str ''36.6'') (str ''101.2'')"
proof -
  have edits: "\<forall>ctl \<in> set [ChangeText1 (str ''40''), ChangeText2 []]. is_edit ctl"
    by simp
  show ?thesis
    using modify_then_cancel_keeps_pair [OF awaiting_screen edits, of "reading []"]
    by (auto simp add: awaiting_screen simp del: actions.simps)
qed

subsection \<open>Processing an image\<close>

lemma pipeline_log_entries:
  "processImageAndExtractNumbers caps uri = (log, outcome) \<Longrightarrow> e \<in> set log \<Longrightarrow>
     \<exists>l a. e = ConsoleError l a"
  using pipeline_log [of e caps uri] by simp

lemma pipeline_success_log:
  "snd (processImageAndExtractNumbers caps uri) = Inr numbers \<Longrightarrow>
     fst (processImageAndExtractNumbers caps uri) = []"
  by (auto simp: processImageAndExtractNumbers_def cropImage_def recognizeText_def
      pipeline_catch_def Let_def split: sum.splits)

lemma handleProcessImage_success:
  assumes "imageUri c = Some uri" and "uri \<noteq> []"
    and "snd (processImageAndExtractNumbers caps uri) = Inr numbers"
  shows "handleProcessImage caps c =
     (if 2 \<le> length numbers
      then (c\<lparr>loading := False, allExtractedNumbers := numbers,
               displayedNumbers := Some (numbers ! 0, numbers ! 1),
               isModifyingNumbers := False, showStartButton := False\<rparr>, [])
      else (c\<lparr>loading := False, allExtractedNumbers := numbers, displayedNumbers := None,
               isModifyingNumbers := False, showStartButton := False\<rparr>,
            Alert (str ''Extraction Failed'')
              (str ''Could not find at least two numbers in the selected area.'')
            # (if onProcessReset c then [OnProcessReset] else [])))"
proof -
  obtain log outcome where p: "processImageAndExtractNumbers caps uri = (log, outcome)"
    by (cases "processImageAndExtractNumbers caps uri")
  with assms(3) pipeline_success_log [OF assms(3)] have "log = []" "outcome = Inr numbers"
    by simp_all
  with p assms(1,2) show ?thesis
    by (simp add: handleProcessImage_def handleProcessImage_call_def
        handleProcessImage_resume_def call_onProcessReset_def)
qed

lemma handleProcessImage_no_completion:
  "OnExtractionComplete pair \<notin> set (snd (handleProcessImage caps c))"
  by (auto simp: handleProcessImage_def handleProcessImage_call_def
      handleProcessImage_resume_def call_onProcessReset_def
      split: option.splits sum.splits prod.splits if_splits dest: pipeline_log_entries)

lemma process_offered:
  "renderContent c = ProcessImageButton \<Longrightarrow>
     action caps ProcessImage c = handleProcessImage caps c"
  using ProcessImageButton_state [of c]
  by (simp add: action_def process_disabled_def)

lemma reading_result: "snd (processImageAndExtractNumbers (reading ocr) uri) = Inr (extractNumbers ocr)"
  by (simp add: pipeline_result reading_def)

lemma thermometer_numbers: "extractNumbers thermometer_text = [str ''36.6'', str ''101.2'']"
  unfolding thermometer_text_def by code_simp

lemma fresh_screen: "renderContent fresh = ProcessImageButton"
  using fresh_has_uri
  by (simp add: renderContent_def) (simp add: fresh_eq initial_def)

lemma fresh_uri: "imageUri fresh = Some (str ''file:///a.png'')" "str ''file:///a.png'' \<noteq> []"
  by (simp_all add: fresh_eq initial_def str_def)

lemma process_fresh: "action (reading thermometer_text) ProcessImage fresh = (awaiting, [])"
  using handleProcessImage_success [OF fresh_uri reading_result, of thermometer_text]
  by (simp add: process_offered [OF fresh_screen] thermometer_numbers awaiting_def)
    (simp add: fresh_eq initial_def)

lemma accept_awaiting: "action caps AcceptAndContinue awaiting = (ready, [])"
  by (simp add: action_def awaiting_screen handleAcceptNumbers_def)
    (simp add: ready_def awaiting_def fresh_eq initial_def)

subsection \<open>Start\<close>

lemma start_in_ready:
  "renderContent c = StartButton n1 n2 \<Longrightarrow> action caps Start c = (c, [OnExtractionComplete (n1, n2)])"
  using StartButton_state [of c n1 n2]
  by (simp add: action_def handleStart_def)

lemma starts_in_ready:
  "renderContent c = StartButton n1 n2 \<Longrightarrow>
     actions caps (replicate k Start) c = (c, replicate k (OnExtractionComplete (n1, n2)))"
  by (induction k) (simp_all add: start_in_ready)

lemma completion_only_from_start:
  assumes "OnExtractionComplete pair \<in> set (snd (action caps ctl c))"
  shows "ctl = Start \<and> renderContent c = StartButton (fst pair) (snd pair)"
proof (cases ctl)
  case ProcessImage
  with assms handleProcessImage_no_completion [of pair caps c] show ?thesis
    by (simp add: action_def split: if_splits)
next
  case Start
  with assms obtain n1 n2 where scr: "renderContent c = StartButton n1 n2"
    by (cases "renderContent c") (simp_all add: action_def)
  with assms Start show ?thesis
    by (simp add: start_in_ready)
qed (use assms in \<open>simp_all add: action_def handleModifyNumbers_def handleAcceptNumbers_def
      handleSaveChanges_def handleCancelModification_def setNumberInput1_def
      setNumberInput2_def Let_def split: if_splits option.splits prod.splits\<close>)

text \<open>
  C4, as the code has it. \<open>onExtractionComplete\<close> is called by one action only: "Start",
  on the screen that shows it (Ready). Each such "Start" calls it exactly once, with
  the pair shown, and leaves the state as it is: the screen still shows "Start", and
  \<open>k\<close> presses call it \<open>k\<close> times.
\<close>

theorem start_calls_onExtractionComplete:
  "(OnExtractionComplete pair \<in> set (snd (action caps ctl c)) \<longleftrightarrow>
      ctl = Start \<and> renderContent c = StartButton (fst pair) (snd pair)) \<and>
   (renderContent c = StartButton n1 n2 \<longrightarrow>
      action caps Start c = (c, [OnExtractionComplete (n1, n2)]) \<and>
      actions caps (replicate k Start) c = (c, replicate k (OnExtractionComplete (n1, n2))))"
proof -
  have "OnExtractionComplete pair \<in> set (snd (action caps ctl c))"
    if "ctl = Start" "renderContent c = StartButton (fst pair) (snd pair)"
    using that by (simp add: start_in_ready)
  then show ?thesis
    using completion_only_from_start [of pair caps ctl c]
    by (auto simp: start_in_ready starts_in_ready)
qed

theorem start_calls_onExtractionComplete_witness:
  "renderContent ready = StartButton (str ''36.6'') (str ''101.2'') \<and>
   OnExtractionComplete (str ''36.6'', str ''101.2'')
     \<in> set (snd (action (reading thermometer_text) Start ready)) \<and>
   action (reading thermometer_text) Start ready =
     (ready, [OnExtractionComplete (str ''36.6'', str ''101.2'')]) \<and>
   actions (reading thermometer_text) (replicate 1 Start) ready =
     (ready, replicate 1 (OnExtractionComplete (str ''36.6'', str ''101.2'')))"
  using start_calls_onExtractionComplete
    [of "(str ''36.6'', str ''101.2'')" "reading thermometer_text" Start ready
      "str ''36.6''" "str ''101.2''" 1]
  by (simp add: ready_screen del: actions.simps replicate.simps)

text \<open>
  C4, as it is stated, fails: in the cycle of the image whose text reads
  \<^verbatim>\<open>36.6\<degree>C 101.2\<degree>C\<close>, accepted, a second "Start" calls \<open>onExtractionComplete\<close> a second
  time.
\<close>

theorem second_start_calls_again:
  "snd (actions (reading thermometer_text) [ProcessImage, AcceptAndContinue, Start, Start] fresh) =
     [OnExtractionComplete (str ''36.6'', str ''101.2''),
      OnExtractionComplete (str ''36.6'', str ''101.2'')]"
  by (simp add: process_fresh accept_awaiting start_in_ready [OF ready_screen])

subsection \<open>Fewer than two numbers\<close>

lemma FoundTooFew_offers_nothing:
  "renderContent c = FoundTooFew n \<Longrightarrow> action caps ctl c = (c, [])"
  by (simp add: action_def)

text \<open>
  C9, as the code has it. When "Process Image" is pressed and the pipeline succeeds with
  fewer than two numbers, the numbers found are stored, no pair is shown, the alert
  "Extraction Failed" is raised and \<open>onProcessReset\<close> is called when it is supplied.
  With one number the screen is "Found 1 number(s)", which offers no control: every
  action leaves the state as it is. With no number the screen is the "Process Image"
  button again, enabled, and pressing it runs the pipeline again.
\<close>

theorem too_few_numbers:
  assumes "renderContent c = ProcessImageButton" and "imageUri c = Some uri"
    and "snd (processImageAndExtractNumbers caps uri) = Inr numbers"
    and "length numbers < 2"
  shows "allExtractedNumbers (fst (action caps ProcessImage c)) = numbers \<and>
         displayedNumbers (fst (action caps ProcessImage c)) = None \<and>
         \<not> loading (fst (action caps ProcessImage c)) \<and>
         snd (action caps ProcessImage c) =
           Alert (str ''Extraction Failed'')
             (str ''Could not find at least two numbers in the selected area.'')
           # (if onProcessReset c then [OnProcessReset] else []) \<and>
         (length numbers = 1 \<longrightarrow>
            renderContent (fst (action caps ProcessImage c)) = FoundTooFew 1 \<and>
            (\<forall>caps' ctl. action caps' ctl (fst (action caps ProcessImage c)) =
               (fst (action caps ProcessImage c), []))) \<and>
         (numbers = [] \<longrightarrow>
            renderContent (fst (action caps ProcessImage c)) = ProcessImageButton \<and>
            \<not> process_disabled (fst (action caps ProcessImage c)) \<and>
            (\<forall>caps'. action caps' ProcessImage (fst (action caps ProcessImage c)) =
               handleProcessImage caps' (fst (action caps ProcessImage c))))"
proof -
  note st = ProcessImageButton_state [OF assms(1)]
  from st assms(2) have uri: "uri \<noteq> []"
    by (simp add: no_uri_def)
  define c' where "c' = c\<lparr>loading := False, allExtractedNumbers := numbers,
      displayedNumbers := None, isModifyingNumbers := False, showStartButton := False\<rparr>"
  have run: "action caps ProcessImage c =
      (c', Alert (str ''Extraction Failed'')
             (str ''Could not find at least two numbers in the selected area.'')
           # (if onProcessReset c then [OnProcessReset] else []))"
    using handleProcessImage_success [OF assms(2) uri assms(3)] assms(4)
    by (simp add: process_offered [OF assms(1)] c'_def)
  have one: "renderContent c' = FoundTooFew 1" if "length numbers = 1"
    using that st by (simp add: c'_def renderContent_def)
  have none: "renderContent c' = ProcessImageButton" "\<not> process_disabled c'" if "numbers = []"
    using that st by (simp_all add: c'_def renderContent_def process_disabled_def)
  show ?thesis
    unfolding run fst_conv snd_conv
    using one none
    by (auto simp: FoundTooFew_offers_nothing process_offered) (simp_all add: c'_def)
qed

lemma one_number: "extractNumbers (str ''only 7 here'') = [str ''7'']"
  by code_simp

lemma no_number: "extractNumbers (str ''no numbers here'') = []"
  by code_simp

theorem too_few_numbers_witness:
  "renderContent fresh = ProcessImageButton \<and>
   snd (processImageAndExtractNumbers (reading (str ''only 7 here'')) (str ''file:///a.png'')) =
     Inr [str ''7''] \<and>
   renderContent (fst (action (reading (str ''only 7 here'')) ProcessImage fresh)) = FoundTooFew 1 \<and>
   snd (processImageAndExtractNumbers (reading (str ''no numbers here'')) (str ''file:///a.png'')) =
     Inr [] \<and>
   renderContent (fst (action (reading (str ''no numbers here'')) ProcessImage fresh)) =
     ProcessImageButton \<and>
   snd (action (reading (str ''no numbers here'')) ProcessImage fresh) =
     [Alert (str ''Extraction Failed'')
        (str ''Could not find at least two numbers in the selected area.''), OnProcessReset]"
proof -
  have r1: "snd (processImageAndExtractNumbers (reading (str ''only 7 here'')) (str ''file:///a.png'')) =
      Inr [str ''7'']"
    by (simp add: reading_result one_number)
  have r0: "snd (processImageAndExtractNumbers (reading (str ''no numbers here'')) (str ''file:///a.png'')) =
      Inr []"
    by (simp add: reading_result no_number)
  have reset: "onProcessReset fresh"
    by (simp add: fresh_eq initial_def)
  show ?thesis
    using too_few_numbers [OF fresh_screen fresh_uri(1) r1]
      too_few_numbers [OF fresh_screen fresh_uri(1) r0] r1 r0 reset
    by (simp add: fresh_screen)
qed

text \<open>
  C9, as it is stated, fails: when the text has no number at all, the screen after the
  run is the "Process Image" button, not "Found n number(s)", and a second press runs
  the pipeline again in the same cycle.
\<close>

theorem no_number_allows_retry:
  "renderContent (fst (action (reading (str ''no numbers here'')) ProcessImage fresh)) =
     ProcessImageButton \<and>
   snd (actions (reading (str ''no numbers here'')) [ProcessImage, ProcessImage] fresh) =
     [Alert (str ''Extraction Failed'')
        (str ''Could not find at least two numbers in the selected area.''), OnProcessReset,
      Alert (str ''Extraction Failed'')
        (str ''Could not find at least two numbers in the selected area.''), OnProcessReset]"
proof -
  have r0: "snd (processImageAndExtractNumbers (reading (str ''no numbers here'')) uri) = Inr []" for uri
    by (simp add: reading_result no_number)
  have run: "action (reading (str ''no numbers here'')) ProcessImage fresh =
      (fresh, [Alert (str ''Extraction Failed'')
        (str ''Could not find at least two numbers in the selected area.''), OnProcessReset])"
    using handleProcessImage_success [OF fresh_uri r0]
    by (simp add: process_offered [OF fresh_screen]) (simp add: fresh_eq initial_def)
  show ?thesis
    by (simp add: run fresh_screen)
qed

subsection \<open>A new image\<close>

lemma receive_new_imageUri:
  "uri \<noteq> imageUri c \<Longrightarrow> receive_imageUri uri c = initial uri (onProcessReset c)"
  by (simp add: receive_imageUri_def useEffect_imageUri_def initial_def)

lemma initial_screen:
  "renderContent (initial uri reset) = (if no_uri uri then NoImageSelected else ProcessImageButton)"
  by (simp add: renderContent_def initial_def)

text \<open>
  C3, as the code has it. In every state, a new image (an \<^verbatim>\<open>imageUri\<close> other than the
  current one) resets the whole state to its initial values: nothing of the previous
  cycle is left. The screen is then the "Process Image" button (or "No image selected
  yet." when there is no image), not the activity indicator: processing starts when the
  button is pressed. When that run finds two numbers or more, the pair shown for
  decision is the first two numbers of that run.
\<close>

theorem new_image_resets_state:
  assumes "uri \<noteq> imageUri c"
  shows "receive_imageUri uri c = initial uri (onProcessReset c) \<and>
         \<not> loading (receive_imageUri uri c) \<and>
         renderContent (receive_imageUri uri c) =
           (if no_uri uri then NoImageSelected else ProcessImageButton) \<and>
         (\<forall>u numbers.
            uri = Some u \<and> u \<noteq> [] \<and>
            snd (processImageAndExtractNumbers caps u) = Inr numbers \<and> 2 \<le> length numbers \<longrightarrow>
            renderContent (fst (action caps ProcessImage (receive_imageUri uri c))) =
              ModifyOrAccept (numbers ! 0) (numbers ! 1))"
proof -
  note r = receive_new_imageUri [OF assms]
  have "renderContent (fst (action caps ProcessImage (initial uri (onProcessReset c)))) =
      ModifyOrAccept (numbers ! 0) (numbers ! 1)"
    if "uri = Some u" "u \<noteq> []" "snd (processImageAndExtractNumbers caps u) = Inr numbers"
      "2 \<le> length numbers" for u numbers
  proof -
    have scr: "renderContent (initial uri (onProcessReset c)) = ProcessImageButton"
      using that(1,2) by (simp add: initial_screen no_uri_def)
    have uri: "imageUri (initial uri (onProcessReset c)) = Some u"
      using that(1) by (simp add: initial_def)
    have run: "action caps ProcessImage (initial uri (onProcessReset c)) =
        (initial uri (onProcessReset c)
           \<lparr>loading := False, allExtractedNumbers := numbers,
            displayedNumbers := Some (numbers ! 0, numbers ! 1),
            isModifyingNumbers := False, showStartButton := False\<rparr>, [])"
      using handleProcessImage_success [OF uri that(2,3)] that(4)
      by (simp add: process_offered [OF scr])
    show ?thesis
      unfolding run using that(1,2)
      by (simp add: renderContent_def render_review_def initial_def no_uri_def)
  qed
  then have next_cycle: "\<forall>u numbers.
      uri = Some u \<and> u \<noteq> [] \<and>
      snd (processImageAndExtractNumbers caps u) = Inr numbers \<and> 2 \<le> length numbers \<longrightarrow>
      renderContent (fst (action caps ProcessImage (initial uri (onProcessReset c)))) =
        ModifyOrAccept (numbers ! 0) (numbers ! 1)"
    by blast
  have idle: "\<not> loading (initial uri (onProcessReset c))"
    by (simp add: initial_def)
  show ?thesis
    unfolding r using next_cycle idle initial_screen [of uri "onProcessReset c"] by blast
qed

lemma ready_has_other_uri: "Some (str ''file:///b.png'') \<noteq> imageUri ready"
  by (simp add: ready_def awaiting_def fresh_eq initial_def str_def)

theorem new_image_resets_state_witness:
  "Some (str ''file:///b.png'') \<noteq> imageUri ready \<and>
   receive_imageUri (Some (str ''file:///b.png'')) ready = initial (Some (str ''file:///b.png'')) True \<and>
   renderContent (receive_imageUri (Some (str ''file:///b.png'')) ready) = ProcessImageButton \<and>
   renderContent (fst (action (reading (str ''7 and 8'')) ProcessImage
       (receive_imageUri (Some (str ''file:///b.png'')) ready))) =
     ModifyOrAccept (str ''7'') (str ''8'')"
proof -
  have n: "extractNumbers (str ''7 and 8'') = [str ''7'', str ''8'']"
    by code_simp
  have b: "str ''file:///b.png'' \<noteq> []" "\<not> no_uri (Some (str ''file:///b.png''))"
    by (simp_all add: str_def no_uri_def)
  have reset: "onProcessReset ready"
    by (simp add: ready_def awaiting_def fresh_eq initial_def)
  show ?thesis
    using new_image_resets_state [OF ready_has_other_uri, of "reading (str ''7 and 8'')"]
      ready_has_other_uri b reset
    by (auto simp: reading_result n)
qed

text \<open>
  C3, as it is stated, fails: a new image supplied in the state that shows "Start"
  (Ready), or in the one that shows the two inputs (Modifying), leads to the "Process
  Image" button with \<open>loading\<close> false, not to the activity indicator (Processing).
\<close>

theorem new_image_does_not_start_processing:
  "renderContent ready = StartButton (str ''36.6'') (str ''101.2'') \<and>
   renderContent (receive_imageUri (Some (str ''file:///b.png'')) ready) = ProcessImageButton \<and>
   \<not> loading (receive_imageUri (Some (str ''file:///b.png'')) ready) \<and>
   renderContent (modifying (str ''40'') []) = ModifyInputs (str ''40'') [] \<and>
   renderContent (receive_imageUri (Some (str ''file:///b.png'')) (modifying (str ''40'') [])) =
     ProcessImageButton"
proof -
  have m: "Some (str ''file:///b.png'') \<noteq> imageUri (modifying (str ''40'') [])"
    by (simp add: modifying_def awaiting_def fresh_eq initial_def str_def)
  have b: "\<not> no_uri (Some (str ''file:///b.png''))"
    by (simp add: str_def no_uri_def)
  show ?thesis
    using b
    by (simp add: ready_screen modifying_screen receive_new_imageUri [OF ready_has_other_uri]
        receive_new_imageUri [OF m] initial_screen)
      (simp add: initial_def)
qed

subsection \<open>A superseded run\<close>










end
